theory Spec2Isabelle
  imports Main "HOL-Library.Word" "HOL-Library.Sublist"
begin

section \<open>The rotating logger of package \<open>logger\<close> (logger.go)\<close>

text \<open>
  The development embeds \<^verbatim>\<open>logger.go\<close>: the struct \<^verbatim>\<open>SeanLogger\<close> and its
  functions \<^verbatim>\<open>LogFileHandle\<close>, \<^verbatim>\<open>StartLog\<close>, \<^verbatim>\<open>LogMessage\<close>, \<^verbatim>\<open>newFile\<close> and
  \<^verbatim>\<open>handleCreateError\<close>. Go mutates the receiver in place and talks to the operating
  system; here every function takes the logger and the world (disk, handle table) and
  returns both. What the code reads from its environment in one call (the clock, the
  date string of \<^verbatim>\<open>utils.FullDateStringSafe\<close>, whether the system lets a file be
  created) is an explicit argument of type \<open>env\<close>.
\<close>

subsection \<open>Machine integers\<close>

text \<open>
  \<^verbatim>\<open>uint64\<close> and \<^verbatim>\<open>int64\<close> are 64-bit words; \<open>+\<close> and \<open>-\<close> wrap around as in Go.
  An \<^verbatim>\<open>int64\<close> is compared through its signed reading (\<open>sint\<close>), a \<^verbatim>\<open>uint64\<close>
  through the unsigned order of words.
\<close>

type_synonym uint64 = "64 word"
type_synonym int64 = "64 word"

definition int64_gt :: "int64 \<Rightarrow> int64 \<Rightarrow> bool" where
  "int64_gt a b = (sint b < sint a)"

subsection \<open>The operating system: disk and file handles\<close>

text \<open>
  The disk is the list of files (name, content) in the order of their first creation.
  A \<^verbatim>\<open>*os.File\<close> is \<open>None\<close> (the nil pointer) or \<open>Some h\<close>, the index of an entry
  (name, open flag) of the handle table. \<open>create_calls\<close> records every name handed to
  \<^verbatim>\<open>os.Create\<close>, whether the call succeeded or not.
\<close>

datatype oserror = ErrInvalid | ErrClosed | ErrShortWrite | PathError nat

type_synonym file_ptr = "nat option"

record world =
  disk :: "(string \<times> string) list"
  handles :: "(string \<times> bool) list"
  create_calls :: "string list"

record env =
  now :: int64
  dts :: string
  create_outcome :: "oserror option"

fun disk_truncate :: "string \<Rightarrow> (string \<times> string) list \<Rightarrow> (string \<times> string) list" where
  "disk_truncate name [] = [(name, [])]"
| "disk_truncate name ((n, c) # fs) =
     (if n = name then (n, []) # fs else (n, c) # disk_truncate name fs)"

fun disk_append :: "string \<Rightarrow> string \<Rightarrow> (string \<times> string) list \<Rightarrow> (string \<times> string) list" where
  "disk_append name p [] = []"
| "disk_append name p ((n, c) # fs) =
     (if n = name then (n, c @ p) # fs else (n, c) # disk_append name p fs)"

text \<open>
  \<^verbatim>\<open>os.Create(name)\<close> opens with \<^verbatim>\<open>O_RDWR|O_CREATE|O_TRUNC\<close>: an existing file of
  that name is emptied, otherwise a new empty file appears. On failure it returns the nil
  pointer and the error.
\<close>

definition os_Create :: "oserror option \<Rightarrow> string \<Rightarrow> world \<Rightarrow> (file_ptr \<times> oserror option) \<times> world" where
  "os_Create outcome name w =
     (let w1 = w\<lparr>create_calls := create_calls w @ [name]\<rparr> in
      case outcome of
        Some e \<Rightarrow> ((None, Some e), w1)
      | None \<Rightarrow>
          ((Some (length (handles w1)), None),
           w1\<lparr>disk := disk_truncate name (disk w1),
              handles := handles w1 @ [(name, True)]\<rparr>))"

text \<open>
  \<^verbatim>\<open>(*os.File).Write\<close>: the nil pointer gives \<^verbatim>\<open>ErrInvalid\<close>, a closed handle
  \<^verbatim>\<open>ErrClosed\<close>; otherwise the bytes are written in full at the end of the file (the
  logger only ever writes through the handle it created last, whose offset is the end of
  the file).
\<close>

definition file_Write :: "file_ptr \<Rightarrow> string \<Rightarrow> world \<Rightarrow> (nat \<times> oserror option) \<times> world" where
  "file_Write f p w =
     (case f of
        None \<Rightarrow> ((0, Some ErrInvalid), w)
      | Some h \<Rightarrow>
          if length (handles w) \<le> h then ((0, Some ErrInvalid), w)
          else if snd (handles w ! h)
          then ((length p, None), w\<lparr>disk := disk_append (fst (handles w ! h)) p (disk w)\<rparr>)
          else ((0, Some ErrClosed), w))"

definition file_Close :: "file_ptr \<Rightarrow> world \<Rightarrow> oserror option \<times> world" where
  "file_Close f w =
     (case f of
        None \<Rightarrow> (Some ErrInvalid, w)
      | Some h \<Rightarrow>
          if length (handles w) \<le> h then (Some ErrInvalid, w)
          else if snd (handles w ! h)
          then (None, w\<lparr>handles := (handles w)[h := (fst (handles w ! h), False)]\<rparr>)
          else (Some ErrClosed, w))"

subsection \<open>The buffered writer (\<^verbatim>\<open>bufio.Writer\<close>)\<close>

record writer =
  wr :: file_ptr
  buf :: string
  err :: "oserror option"

definition defaultBufSize :: nat where
  "defaultBufSize = 4096"

definition NewWriter :: "file_ptr \<Rightarrow> writer" where
  "NewWriter f = \<lparr>wr = f, buf = [], err = None\<rparr>"

definition Available :: "writer \<Rightarrow> nat" where
  "Available b = defaultBufSize - length (buf b)"

text \<open>
  \<^verbatim>\<open>Flush\<close>: nothing when an error is pending or the buffer is empty; otherwise the
  buffer goes to the underlying file. On an error the unwritten bytes stay in the buffer
  and the error is kept.
\<close>

definition Flush :: "writer \<Rightarrow> world \<Rightarrow> writer \<times> world" where
  "Flush b w =
     (if err b \<noteq> None then (b, w)
      else if buf b = [] then (b, w)
      else
        (case file_Write (wr b) (buf b) w of
           ((n, e), w1) \<Rightarrow>
             (let e1 = (if n < length (buf b) \<and> e = None then Some ErrShortWrite else e) in
              if e1 \<noteq> None then (b\<lparr>buf := drop n (buf b), err := e1\<rparr>, w1)
              else (b\<lparr>buf := []\<rparr>, w1))))"

text \<open>
  \<^verbatim>\<open>Write\<close>: while the bytes do not fit and no error is pending, an empty buffer is
  bypassed (the bytes go straight to the file), a non-empty one is filled and flushed.
  What is left is copied into the buffer.
\<close>

function Write :: "writer \<Rightarrow> string \<Rightarrow> world \<Rightarrow> writer \<times> world" where
  "Write b p w =
     (if Available b < length p \<and> err b = None then
        (if buf b = [] then
           (case file_Write (wr b) p w of
              ((n, e), w1) \<Rightarrow> Write (b\<lparr>err := e\<rparr>) (drop n p) w1)
         else
           (case Flush (b\<lparr>buf := buf b @ take (Available b) p\<rparr>) w of
              (b1, w1) \<Rightarrow> Write b1 (drop (Available b) p) w1))
      else if err b \<noteq> None then (b, w)
      else (b\<lparr>buf := buf b @ p\<rparr>, w))"
  by pat_completeness auto

termination Write
proof (relation "measure (\<lambda>(b, p, w).
         if err b \<noteq> None then 0 else 2 * length p + (if buf b = [] then 0 else 1))",
       goal_cases)
  case 1
  show ?case by simp
next
  case (2 b p w x1 w1 n e)
  have "(e = None \<and> n = length p) \<or> e \<noteq> None"
    using 2(3,4) by (auto simp: file_Write_def split: option.splits if_splits)
  with 2 show ?case by (auto split: if_splits)
next
  case (3 b p w b1 w1)
  have "err b1 \<noteq> None \<or> buf b1 = []"
    using 3(3)
    by (auto simp: Flush_def Let_def file_Write_def split: if_splits prod.splits option.splits)
  with 3 show ?case by (auto split: if_splits)
qed

declare Write.simps [simp del]

subsection \<open>The logger\<close>

record SeanLogger =
  BaseLogName :: string
  MaxLogFileCount :: uint64
  MaxLogMessageCount :: uint64
  MaxLogDuration :: int64
  logFileCount :: uint64
  logMessageCount :: uint64
  logDuration :: int64
  logStamp :: int64
  log :: file_ptr
  writer :: "writer option"

text \<open>
  A call either returns or panics (a nil \<^verbatim>\<open>*bufio.Writer\<close> is dereferenced); both
  leave a logger and a world behind.
\<close>

datatype outcome = Returned SeanLogger world | Panicked SeanLogger world

fun logger_of :: "outcome \<Rightarrow> SeanLogger" where
  "logger_of (Returned sl w) = sl"
| "logger_of (Panicked sl w) = sl"

fun world_of :: "outcome \<Rightarrow> world" where
  "world_of (Returned sl w) = w"
| "world_of (Panicked sl w) = w"


text \<open>
  \<^verbatim>\<open>LogFileHandle\<close>; the date string of \<^verbatim>\<open>utils.FullDateStringSafe()\<close> (package
  \<^verbatim>\<open>utils\<close> is not part of the sources at hand) is the argument \<open>d\<close>.
\<close>

definition LogFileHandle :: "string \<Rightarrow> string \<Rightarrow> string" where
  "LogFileHandle d logBaseName = logBaseName @ '' '' @ d"

text \<open>
  \<^verbatim>\<open>StartLog\<close> returns the error of \<^verbatim>\<open>os.Create\<close> before it touches the
  receiver; otherwise it assigns \<^verbatim>\<open>BaseLogName\<close>, \<^verbatim>\<open>logFileCount\<close>,
  \<^verbatim>\<open>logDuration\<close>, \<^verbatim>\<open>logStamp\<close>, \<^verbatim>\<open>log\<close> and \<^verbatim>\<open>writer\<close>, in this order.
\<close>

definition StartLog :: "env \<Rightarrow> string \<Rightarrow> SeanLogger \<Rightarrow> world \<Rightarrow> oserror option \<times> SeanLogger \<times> world" where
  "StartLog e logBaseName sl w =
     (case os_Create (create_outcome e) (LogFileHandle (dts e) logBaseName) w of
        ((filePtr, er), w1) \<Rightarrow>
          (case er of
             Some x \<Rightarrow> (Some x, sl, w1)
           | None \<Rightarrow>
               (None,
                sl\<lparr>BaseLogName := logBaseName,
                   logFileCount := 0,
                   logDuration := 0,
                   logStamp := now e,
                   log := filePtr,
                   writer := Some (NewWriter filePtr)\<rparr>,
                w1)))"

text \<open>\<^verbatim>\<open>handleCreateError\<close> has an empty body (a comment only).\<close>

definition handleCreateError :: "SeanLogger \<Rightarrow> world \<Rightarrow> SeanLogger \<times> world" where
  "handleCreateError sl w = (sl, w)"

text \<open>
  \<^verbatim>\<open>newFile\<close>: flush, close, create, call \<^verbatim>\<open>handleCreateError\<close> on an error, and
  in either case store the pointer that \<^verbatim>\<open>os.Create\<close> returned and a new writer on it.
  \<^verbatim>\<open>sl.writer.Flush()\<close> on a nil writer panics; \<^verbatim>\<open>sl.log.Close()\<close> on a nil file
  only returns an error, which the code drops.
\<close>

definition newFile :: "env \<Rightarrow> SeanLogger \<Rightarrow> world \<Rightarrow> outcome" where
  "newFile e sl w =
     (case writer sl of
        None \<Rightarrow> Panicked sl w
      | Some b \<Rightarrow>
          (case Flush b w of
             (b1, w1) \<Rightarrow>
               (let sl1 = sl\<lparr>writer := Some b1\<rparr> in
                case file_Close (log sl1) w1 of
                  (cerr, w2) \<Rightarrow>
                    (case os_Create (create_outcome e)
                            (LogFileHandle (dts e) (BaseLogName sl1)) w2 of
                       ((filePtr, er), w3) \<Rightarrow>
                         (case (if er \<noteq> None then handleCreateError sl1 w3 else (sl1, w3)) of
                            (sl2, w4) \<Rightarrow>
                              Returned
                                (sl2\<lparr>log := filePtr, writer := Some (NewWriter filePtr)\<rparr>)
                                w4)))))"

text \<open>
  \<^verbatim>\<open>LogMessage\<close>: \<^verbatim>\<open>fmt.Fprintln(sl.writer, message)\<close> hands the message and a
  newline to the writer in one \<^verbatim>\<open>Write\<close> (a nil writer panics there); then the
  counter, the duration and the stamp are updated and the two limits are checked.
\<close>

definition LogMessage :: "env \<Rightarrow> string \<Rightarrow> SeanLogger \<Rightarrow> world \<Rightarrow> outcome" where
  "LogMessage e message sl w =
     (case writer sl of
        None \<Rightarrow> Panicked sl w
      | Some b \<Rightarrow>
          (case Write b (message @ [CHR 0x0A]) w of
             (b1, w1) \<Rightarrow>
               (let sl1 = sl\<lparr>writer := Some b1\<rparr>;
                    sl2 = sl1\<lparr>logMessageCount := logMessageCount sl1 + 1\<rparr>;
                    sl3 = sl2\<lparr>logDuration := logDuration sl2 + (now e - logStamp sl2)\<rparr>;
                    sl4 = sl3\<lparr>logStamp := now e\<rparr>
                in if MaxLogMessageCount sl4 < logMessageCount sl4 \<or>
                      int64_gt (logDuration sl4) (MaxLogDuration sl4)
                   then newFile e sl4 w1
                   else Returned sl4 w1)))"

text \<open>
  The receiver as the two checks of \<^verbatim>\<open>LogMessage\<close> see it: the writer after the write
  and the three assignments to the counter, the duration and the stamp.
\<close>

definition counted :: "env \<Rightarrow> writer \<Rightarrow> SeanLogger \<Rightarrow> SeanLogger" where
  "counted e b1 sl =
     sl\<lparr>writer := Some b1,
        logMessageCount := logMessageCount sl + 1,
        logDuration := logDuration sl + (now e - logStamp sl),
        logStamp := now e\<rparr>"

text \<open>A caller appending one message after the other; a panic ends the run.\<close>

fun LogMessages :: "(env \<times> string) list \<Rightarrow> SeanLogger \<Rightarrow> world \<Rightarrow> outcome" where
  "LogMessages [] sl w = Returned sl w"
| "LogMessages ((e, message) # rest) sl w =
     (case LogMessage e message sl w of
        Panicked sl1 w1 \<Rightarrow> Panicked sl1 w1
      | Returned sl1 w1 \<Rightarrow> LogMessages rest sl1 w1)"

text \<open>The zero value of the struct, and a machine with no files.\<close>

definition zeroLogger :: SeanLogger where
  "zeroLogger =
     \<lparr>BaseLogName = [], MaxLogFileCount = 0, MaxLogMessageCount = 0, MaxLogDuration = 0,
      logFileCount = 0, logMessageCount = 0, logDuration = 0, logStamp = 0,
      log = None, writer = None\<rparr>"

definition emptyWorld :: world where
  "emptyWorld = \<lparr>disk = [], handles = [], create_calls = []\<rparr>"

subsection \<open>Callers and observations\<close>

text \<open>
  The two exported operations of the package, as calls with the environment each meets.
\<close>

datatype call = Call_StartLog env string | Call_LogMessage env string

fun exec :: "call \<Rightarrow> SeanLogger \<Rightarrow> world \<Rightarrow> SeanLogger \<times> world" where
  "exec (Call_StartLog e logBaseName) sl w = snd (StartLog e logBaseName sl w)"
| "exec (Call_LogMessage e message) sl w =
     (logger_of (LogMessage e message sl w), world_of (LogMessage e message sl w))"

text \<open>
  A session on a machine with no files: \<open>StartLog\<close> on a logger that carries only its
  limits, then the appends if the start succeeded.
\<close>

definition configured :: "uint64 \<Rightarrow> uint64 \<Rightarrow> int64 \<Rightarrow> SeanLogger" where
  "configured c k d =
     zeroLogger\<lparr>MaxLogFileCount := c, MaxLogMessageCount := k, MaxLogDuration := d\<rparr>"

definition env_ok :: "int64 \<Rightarrow> string \<Rightarrow> env" where
  "env_ok t d = \<lparr>now = t, dts = d, create_outcome = None\<rparr>"

definition session :: "SeanLogger \<Rightarrow> env \<Rightarrow> string \<Rightarrow> (env \<times> string) list \<Rightarrow> outcome" where
  "session sl0 e0 logBaseName calls =
     (case StartLog e0 logBaseName sl0 emptyWorld of
        (r, sl, w) \<Rightarrow>
          (case r of Some x \<Rightarrow> Returned sl w | None \<Rightarrow> LogMessages calls sl w))"


definition pending :: "SeanLogger \<Rightarrow> string" where
  "pending sl = (case writer sl of None \<Rightarrow> [] | Some b \<Rightarrow> buf b)"

definition handle_open :: "file_ptr \<Rightarrow> world \<Rightarrow> bool" where
  "handle_open f w =
     (case f of None \<Rightarrow> False | Some h \<Rightarrow> h < length (handles w) \<and> snd (handles w ! h))"

definition active_name :: "SeanLogger \<Rightarrow> world \<Rightarrow> string" where
  "active_name sl w = (case log sl of None \<Rightarrow> [] | Some h \<Rightarrow> fst (handles w ! h))"

text \<open>
  A logger in working order, as a successful \<open>StartLog\<close> or rollover leaves it: the writer
  has no pending error and writes to the handle in \<open>log\<close>, that handle is open, and its
  file is the newest one on a disk whose names are distinct.
\<close>

definition healthy :: "SeanLogger \<Rightarrow> world \<Rightarrow> bool" where
  "healthy sl w =
     (case writer sl of
        None \<Rightarrow> False
      | Some b \<Rightarrow>
         (case log sl of
            None \<Rightarrow> False
          | Some h \<Rightarrow>
              wr b = Some h \<and> err b = None \<and> h < length (handles w) \<and>
              snd (handles w ! h) \<and> distinct (map fst (disk w)) \<and> disk w \<noteq> [] \<and>
              fst (last (disk w)) = fst (handles w ! h)))"






text \<open>
  The effect the specification gives to \<^verbatim>\<open>close()\<close> (``flushes and closes the active
  file''), in the words of the specification and not from any code: the disk gains
  exactly the pending bytes, in the active file, and afterwards the logger holds no open
  file. It is stated here to be compared with what the two exported operations do.
\<close>

definition spec_close_effect :: "SeanLogger \<Rightarrow> world \<Rightarrow> SeanLogger \<times> world \<Rightarrow> bool" where
  "spec_close_effect sl w r =
     (disk (snd r) = disk_append (active_name sl w) (pending sl) (disk w) \<and>
      handle_open (log (fst r)) (snd r) = False)"

subsection \<open>What the system calls leave alone\<close>

lemma file_Write_create_calls:
  "create_calls (snd (file_Write f p w)) = create_calls w"
  by (simp add: file_Write_def split: option.splits)

lemma file_Close_create_calls:
  "create_calls (snd (file_Close f w)) = create_calls w"
  by (simp add: file_Close_def split: option.splits)

lemma os_Create_create_calls:
  "create_calls (snd (os_Create r name w)) = create_calls w @ [name]"
  by (simp add: os_Create_def Let_def split: option.splits)

lemma Flush_create_calls:
  "create_calls (snd (Flush b w)) = create_calls w"
  using file_Write_create_calls [of "wr b" "buf b" w]
  by (auto simp: Flush_def Let_def split: prod.splits)

lemma Write_create_calls:
  "create_calls (snd (Write b p w)) = create_calls w"
proof (induction b p w rule: Write.induct)
  case (1 b p w)
  show ?case
  proof (cases "Available b < length p \<and> err b = None")
    case False
    then show ?thesis by (subst Write.simps) auto
  next
    case loop: True
    show ?thesis
    proof (cases "buf b = []")
      case True
      obtain n e w1 where fw: "file_Write (wr b) p w = ((n, e), w1)"
        by (metis surj_pair)
      have "create_calls (snd (Write (b\<lparr>err := e\<rparr>) (drop n p) w1)) = create_calls w1"
        using 1(1) [OF loop True fw [symmetric]] by simp
      moreover have "create_calls w1 = create_calls w"
        using file_Write_create_calls [of "wr b" p w] fw by simp
      ultimately show ?thesis
        using loop True fw by (subst Write.simps) simp
    next
      case False
      obtain b1 w1 where fl: "Flush (b\<lparr>buf := buf b @ take (Available b) p\<rparr>) w = (b1, w1)"
        by (metis surj_pair)
      have "create_calls (snd (Write b1 (drop (Available b) p) w1)) = create_calls w1"
        using 1(2) [OF loop False fl [symmetric]] by simp
      moreover have "create_calls w1 = create_calls w"
        using Flush_create_calls [of "b\<lparr>buf := buf b @ take (Available b) p\<rparr>" w] fl by simp
      ultimately show ?thesis
        using loop False fl by (subst Write.simps) simp
    qed
  qed
qed

subsection \<open>The rollover and the append, step by step\<close>

text \<open>With a writer in place \<open>newFile\<close> returns; the pointer and the world are those of
  \<open>os_Create\<close> after the flush and the close.\<close>

lemma newFile_Some:
  "writer sl = Some b \<Longrightarrow>
   newFile e sl w =
     (let cr = os_Create (create_outcome e) (LogFileHandle (dts e) (BaseLogName sl))
                 (snd (file_Close (log sl) (snd (Flush b w))))
      in Returned (sl\<lparr>log := fst (fst cr), writer := Some (NewWriter (fst (fst cr)))\<rparr>) (snd cr))"
  by (simp add: newFile_def handleCreateError_def Let_def split: prod.splits)

lemma newFile_create_calls:
  "writer sl = Some b \<Longrightarrow>
   create_calls (world_of (newFile e sl w)) =
     create_calls w @ [LogFileHandle (dts e) (BaseLogName sl)]"
  by (simp add: newFile_Some Let_def os_Create_create_calls file_Close_create_calls
      Flush_create_calls)

lemma newFile_logger:
  "\<exists>f q. logger_of (newFile e sl w) = sl\<lparr>log := f, writer := q\<rparr>"
proof (cases "writer sl")
  case None
  have "logger_of (newFile e sl w) = sl\<lparr>log := log sl, writer := writer sl\<rparr>"
    using None by (simp add: newFile_def)
  then show ?thesis by blast
next
  case (Some b)
  then show ?thesis by (auto simp: newFile_Some Let_def)
qed

lemma LogMessage_Some:
  assumes "writer sl = Some b"
  shows "LogMessage e message sl w =
     (let r = Write b (message @ [CHR 0x0A]) w in
      if MaxLogMessageCount sl < logMessageCount sl + 1 \<or>
         sint (MaxLogDuration sl) < sint (logDuration sl + (now e - logStamp sl))
      then newFile e (counted e (fst r) sl) (snd r)
      else Returned (counted e (fst r) sl) (snd r))"
  using assms
  by (simp add: LogMessage_def Let_def counted_def int64_gt_def split: prod.splits)

lemma LogMessage_logger:
  assumes "writer sl = Some b"
  shows "\<exists>f q. logger_of (LogMessage e message sl w) =
           sl\<lparr>logMessageCount := logMessageCount sl + 1,
              logDuration := logDuration sl + (now e - logStamp sl),
              logStamp := now e, log := f, writer := q\<rparr>"
proof -
  define r where "r = Write b (message @ [CHR 0x0A]) w"
  obtain f q where nf:
    "logger_of (newFile e (counted e (fst r) sl) (snd r)) =
       (counted e (fst r) sl)\<lparr>log := f, writer := q\<rparr>"
    using newFile_logger by blast
  have a: "(counted e (fst r) sl)\<lparr>log := f, writer := q\<rparr> =
      sl\<lparr>logMessageCount := logMessageCount sl + 1,
         logDuration := logDuration sl + (now e - logStamp sl),
         logStamp := now e, log := f, writer := q\<rparr>"
    by (simp add: counted_def)
  have b: "counted e (fst r) sl =
      sl\<lparr>logMessageCount := logMessageCount sl + 1,
         logDuration := logDuration sl + (now e - logStamp sl),
         logStamp := now e, log := log sl, writer := Some (fst r)\<rparr>"
    by (simp add: counted_def)
  show ?thesis
  proof (cases "MaxLogMessageCount sl < logMessageCount sl + 1 \<or>
         sint (MaxLogDuration sl) < sint (logDuration sl + (now e - logStamp sl))")
    case True
    then have "logger_of (LogMessage e message sl w) =
        (counted e (fst r) sl)\<lparr>log := f, writer := q\<rparr>"
      using assms nf by (simp add: LogMessage_Some r_def Let_def)
    then show ?thesis using a by metis
  next
    case False
    then have "logger_of (LogMessage e message sl w) = counted e (fst r) sl"
      using assms by (simp add: LogMessage_Some r_def Let_def)
    then show ?thesis using b by metis
  qed
qed

lemma LogMessage_create_calls:
  assumes "writer sl = Some b"
  shows "create_calls (world_of (LogMessage e message sl w)) =
     (if MaxLogMessageCount sl < logMessageCount sl + 1 \<or>
         sint (MaxLogDuration sl) < sint (logDuration sl + (now e - logStamp sl))
      then create_calls w @ [LogFileHandle (dts e) (BaseLogName sl)]
      else create_calls w)"
proof -
  define r where "r = Write b (message @ [CHR 0x0A]) w"
  have w1: "create_calls (snd r) = create_calls w"
    by (simp add: r_def Write_create_calls)
  have "create_calls (world_of (newFile e (counted e (fst r) sl) (snd r))) =
      create_calls (snd r) @ [LogFileHandle (dts e) (BaseLogName (counted e (fst r) sl))]"
    by (rule newFile_create_calls [where b = "fst r"]) (simp add: counted_def)
  then have "create_calls (world_of (newFile e (counted e (fst r) sl) (snd r))) =
      create_calls w @ [LogFileHandle (dts e) (BaseLogName sl)]"
    using w1 by (simp add: counted_def)
  then show ?thesis
    using assms w1 by (simp add: LogMessage_Some r_def [symmetric] Let_def)
qed

subsection \<open>Writing through an open handle\<close>

lemma disk_append_Nil: "disk_append name [] fs = fs"
  by (induction fs) auto


lemma disk_append_last:
  "name \<notin> set (map fst ds) \<Longrightarrow> disk_append name p (ds @ [(name, c)]) = ds @ [(name, c @ p)]"
  by (induction ds) auto


text \<open>A disk whose newest file is \<open>name\<close>.\<close>

lemma newest_split:
  assumes "distinct (map fst fs)" "fs \<noteq> []" "fst (last fs) = name"
  shows "\<exists>ds c. fs = ds @ [(name, c)] \<and> name \<notin> set (map fst ds)"
proof -
  obtain ds x where fs: "fs = ds @ [x]"
    using assms(2) by (metis append_butlast_last_id)
  obtain n c where x: "x = (n, c)" by (cases x)
  have "n = name" using assms(3) fs x by simp
  moreover have "n \<notin> set (map fst ds)" using assms(1) fs x by auto
  ultimately show ?thesis using fs x by blast
qed

lemma disk_append_newest:
  assumes "distinct (map fst fs)" "fs \<noteq> []" "fst (last fs) = name"
  shows "concat (map snd (disk_append name p fs)) = concat (map snd fs) @ p"
    and "disk_append name p fs \<noteq> []"
    and "fst (last (disk_append name p fs)) = name"
proof -
  obtain ds c where fs: "fs = ds @ [(name, c)]" and nin: "name \<notin> set (map fst ds)"
    using newest_split [OF assms] by blast
  have eq: "disk_append name p fs = ds @ [(name, c @ p)]"
    using disk_append_last [OF nin] fs by simp
  show "concat (map snd (disk_append name p fs)) = concat (map snd fs) @ p"
    by (simp add: eq) (simp add: fs)
  show "disk_append name p fs \<noteq> []" by (simp add: eq)
  show "fst (last (disk_append name p fs)) = name" by (simp add: eq)
qed

lemma file_Write_open:
  assumes "h < length (handles w)" "snd (handles w ! h)"
  shows "file_Write (Some h) p w =
           ((length p, None), w\<lparr>disk := disk_append (fst (handles w ! h)) p (disk w)\<rparr>)"
  using assms by (simp add: file_Write_def)

lemma Flush_open:
  assumes "wr b = Some h" "err b = None" "h < length (handles w)" "snd (handles w ! h)"
  shows "Flush b w = (b\<lparr>buf := []\<rparr>, w\<lparr>disk := disk_append (fst (handles w ! h)) (buf b) (disk w)\<rparr>)"
proof (cases "buf b = []")
  case True
  then show ?thesis using assms by (simp add: Flush_def disk_append_Nil)
next
  case False
  then show ?thesis using assms by (simp add: Flush_def file_Write_open)
qed

lemma disk_append_append:
  "disk_append name q (disk_append name p fs) = disk_append name (p @ q) fs"
  by (induction fs) auto

lemma Write_open:
  assumes "wr b = Some h" "err b = None" "h < length (handles w)" "snd (handles w ! h)"
  shows "\<exists>x y. Write b p w =
            (b\<lparr>buf := y\<rparr>, w\<lparr>disk := disk_append (fst (handles w ! h)) x (disk w)\<rparr>) \<and>
            x @ y = buf b @ p"
  using assms
proof (induction b p w rule: Write.induct)
  case (1 b p w)
  let ?nm = "fst (handles w ! h)"
  show ?case
  proof (cases "Available b < length p")
    case False
    then have "Write b p w = (b\<lparr>buf := buf b @ p\<rparr>, w)"
      using 1(4) by (subst Write.simps) simp
    moreover have "w = w\<lparr>disk := disk_append ?nm [] (disk w)\<rparr>"
      by (simp add: disk_append_Nil)
    ultimately have "Write b p w =
        (b\<lparr>buf := buf b @ p\<rparr>, w\<lparr>disk := disk_append ?nm [] (disk w)\<rparr>) \<and>
        [] @ (buf b @ p) = buf b @ p"
      by simp
    then show ?thesis by blast
  next
    case big: True
    then have loop: "Available b < length p \<and> err b = None" using 1(4) by simp
    show ?thesis
    proof (cases "buf b = []")
      case True
      let ?w1 = "w\<lparr>disk := disk_append ?nm p (disk w)\<rparr>"
      have fw: "file_Write (wr b) p w = ((length p, None), ?w1)"
        using 1(3,5,6) by (simp add: file_Write_open)
      have b: "b\<lparr>err := None\<rparr> = b" using 1(4) by simp
      have "Write b p w = Write (b\<lparr>err := None\<rparr>) (drop (length p) p) ?w1"
        using loop True fw by (subst Write.simps) simp
      also have "\<dots> = Write b [] ?w1" using b by simp
      also have "\<dots> = (b\<lparr>buf := buf b @ []\<rparr>, ?w1)"
        using 1(4) by (subst Write.simps) simp
      finally have "Write b p w = (b\<lparr>buf := []\<rparr>, ?w1) \<and> p @ [] = buf b @ p"
        using True by simp
      then show ?thesis by blast
    next
      case False
      let ?b0 = "b\<lparr>buf := buf b @ take (Available b) p\<rparr>"
      let ?w1 = "w\<lparr>disk := disk_append ?nm (buf ?b0) (disk w)\<rparr>"
      have fl: "Flush ?b0 w = (?b0\<lparr>buf := []\<rparr>, ?w1)"
        using 1(3,4,5,6) by (intro Flush_open) simp_all
      have step: "Write b p w = Write (?b0\<lparr>buf := []\<rparr>) (drop (Available b) p) ?w1"
        using loop False fl by (subst Write.simps) simp
      have "\<exists>x y. Write (?b0\<lparr>buf := []\<rparr>) (drop (Available b) p) ?w1 =
            ((?b0\<lparr>buf := []\<rparr>)\<lparr>buf := y\<rparr>,
             ?w1\<lparr>disk := disk_append (fst (handles ?w1 ! h)) x (disk ?w1)\<rparr>) \<and>
            x @ y = buf (?b0\<lparr>buf := []\<rparr>) @ drop (Available b) p"
        using 1(3,4,5,6) by (intro 1(2) [OF loop False fl [symmetric]]) simp_all
      then obtain x y where
        ih: "Write (?b0\<lparr>buf := []\<rparr>) (drop (Available b) p) ?w1 =
            ((?b0\<lparr>buf := []\<rparr>)\<lparr>buf := y\<rparr>,
             ?w1\<lparr>disk := disk_append (fst (handles ?w1 ! h)) x (disk ?w1)\<rparr>)"
        and xy: "x @ y = buf (?b0\<lparr>buf := []\<rparr>) @ drop (Available b) p"
        by blast
      have "Write b p w =
          (b\<lparr>buf := y\<rparr>, w\<lparr>disk := disk_append ?nm ((buf b @ take (Available b) p) @ x) (disk w)\<rparr>)"
        unfolding step ih by (simp add: disk_append_append)
      moreover have "((buf b @ take (Available b) p) @ x) @ y = buf b @ p"
        using xy by simp
      ultimately show ?thesis by blast
    qed
  qed
qed

subsection \<open>One append keeps the logger in working order\<close>

lemma healthyD:
  assumes "healthy sl w"
  obtains b h where "writer sl = Some b" "log sl = Some h" "wr b = Some h" "err b = None"
    "h < length (handles w)" "snd (handles w ! h)" "distinct (map fst (disk w))"
    "disk w \<noteq> []" "fst (last (disk w)) = fst (handles w ! h)"
  using assms by (auto simp: healthy_def split: option.splits)

lemma file_Close_open:
  assumes "h < length (handles w)" "snd (handles w ! h)"
  shows "file_Close (Some h) w = (None, w\<lparr>handles := (handles w)[h := (fst (handles w ! h), False)]\<rparr>)"
  using assms by (simp add: file_Close_def)
















subsection \<open>No exported call has the effect of a close\<close>

lemma disk_append_inj:
  "name \<in> set (map fst fs) \<Longrightarrow> disk_append name p fs = disk_append name q fs \<Longrightarrow> p = q"
proof (induction fs)
  case Nil
  then show ?case by simp
next
  case (Cons f fs)
  obtain n c where f: "f = (n, c)" by (cases f)
  show ?case
  proof (cases "n = name")
    case True
    then show ?thesis using Cons.prems(2) f by simp
  next
    case False
    then have "name \<in> set (map fst fs)" "disk_append name p fs = disk_append name q fs"
      using Cons.prems f by auto
    then show ?thesis by (rule Cons.IH)
  qed
qed

lemma no_call_closes:
  assumes hl: "healthy sl w"
  shows "\<not> spec_close_effect sl w (exec c sl w)"
proof -
  from hl obtain b h where
    wsl: "writer sl = Some b" and lsl: "log sl = Some h" and wrb: "wr b = Some h"
    and errb: "err b = None" and hlt: "h < length (handles w)"
    and hopen: "snd (handles w ! h)" and dist: "distinct (map fst (disk w))"
    and ne: "disk w \<noteq> []" and lastn: "fst (last (disk w)) = fst (handles w ! h)"
    by (rule healthyD)
  let ?nm = "fst (handles w ! h)"
  have nm_in: "?nm \<in> set (map fst (disk w))"
    using ne lastn by (metis last_in_set last_map map_is_Nil_conv)
  show ?thesis
  proof (cases c)
    case (Call_StartLog e n)
    show ?thesis
    proof (cases "create_outcome e")
      case None
      then show ?thesis
        using Call_StartLog
        by (simp add: spec_close_effect_def StartLog_def os_Create_def Let_def handle_open_def)
    next
      case (Some x)
      then show ?thesis
        using Call_StartLog lsl hlt hopen
        by (simp add: spec_close_effect_def StartLog_def os_Create_def Let_def handle_open_def)
    qed
  next
    case (Call_LogMessage e m)
    obtain x y where
      wrt: "Write b (m @ [CHR 0x0A]) w =
              (b\<lparr>buf := y\<rparr>, w\<lparr>disk := disk_append ?nm x (disk w)\<rparr>)"
      and xy: "x @ y = buf b @ m @ [CHR 0x0A]"
      using Write_open [OF wrb errb hlt hopen, of "m @ [CHR 0x0A]"] by auto
    let ?b1 = "b\<lparr>buf := y\<rparr>"
    let ?w1 = "w\<lparr>disk := disk_append ?nm x (disk w)\<rparr>"
    let ?sl4 = "counted e ?b1 sl"
    show ?thesis
    proof (cases "MaxLogMessageCount sl < logMessageCount sl + 1 \<or>
           sint (MaxLogDuration sl) < sint (logDuration sl + (now e - logStamp sl))")
      case False
      then have "LogMessage e m sl w = Returned ?sl4 ?w1"
        using wsl wrt by (simp add: LogMessage_Some Let_def)
      then show ?thesis
        using Call_LogMessage lsl hlt hopen
        by (simp add: spec_close_effect_def handle_open_def counted_def)
    next
      case True
      let ?w2 = "?w1\<lparr>disk := disk_append ?nm y (disk ?w1)\<rparr>"
      let ?w3 = "?w2\<lparr>handles := (handles ?w2)[h := (?nm, False)]\<rparr>"
      let ?name = "LogFileHandle (dts e) (BaseLogName sl)"
      have fl: "Flush ?b1 ?w1 = (?b1\<lparr>buf := []\<rparr>, ?w2)"
        using Flush_open [of ?b1 h ?w1] wrb errb hlt hopen by simp
      have cl: "file_Close (Some h) ?w2 = (None, ?w3)"
        using file_Close_open [of h ?w2] hlt hopen by simp
      have nf: "newFile e ?sl4 ?w1 =
         (let cr = os_Create (create_outcome e) ?name ?w3
          in Returned (?sl4\<lparr>log := fst (fst cr), writer := Some (NewWriter (fst (fst cr)))\<rparr>) (snd cr))"
        using fl cl lsl by (simp add: newFile_Some [where b = ?b1] counted_def Let_def)
      have lm: "LogMessage e m sl w = newFile e ?sl4 ?w1"
        using True wsl wrt by (simp add: LogMessage_Some Let_def)
      show ?thesis
      proof (cases "create_outcome e")
        case None
        then show ?thesis
          using Call_LogMessage lm nf
          by (simp add: spec_close_effect_def handle_open_def os_Create_def Let_def nth_append)
      next
        case (Some er)
        have d3: "disk ?w3 = disk_append ?nm (buf b @ m @ [CHR 0x0A]) (disk w)"
          using xy by (simp add: disk_append_append)
        have "disk_append ?nm (buf b @ m @ [CHR 0x0A]) (disk w) \<noteq> disk_append ?nm (buf b) (disk w)"
          using disk_append_inj [OF nm_in, of "buf b @ m @ [CHR 0x0A]" "buf b"] by auto
        then show ?thesis
          using Call_LogMessage lm nf Some d3 lsl wsl
          by (simp add: spec_close_effect_def os_Create_def Let_def active_name_def pending_def)
      qed
    qed
  qed
qed

subsection \<open>Evaluating a session\<close>

lemmas run_defs =
  session_def configured_def env_ok_def zeroLogger_def emptyWorld_def StartLog_def
  os_Create_def LogFileHandle_def NewWriter_def LogMessage_def Write.simps Available_def
  defaultBufSize_def int64_gt_def newFile_def Flush_def file_Write_def file_Close_def
  handleCreateError_def Let_def

section \<open>The claims\<close>

subsection \<open>Rollover and the counters\<close>

text \<open>
  C1. The claim: a rollover resets the message counter and the duration, so that with
  \<open>MaxLogMessageCount = k\<close> a file is closed after every \<open>k + 1\<close> messages and \<open>N\<close>
  messages give \<open>ceil (N / (k + 1))\<close> files. The code, with \<open>k = 1\<close>, four messages one
  second apart and a limit of 3600 seconds: \<open>newFile\<close> assigns only \<open>log\<close> and \<open>writer\<close>,
  so the counter stays above the limit once it has passed it. The counter ends at 4 and
  the duration at 4, \<open>os.Create\<close> is called after the second, the third and the fourth
  message, and four files exist where the claim counts two. In general \<open>newFile\<close> leaves
  \<open>logMessageCount\<close> and \<open>logDuration\<close> as they were.
\<close>

theorem newFile_keeps_counters_session:
  "session (configured 0 1 3600) (env_ok 0 ''t0'') ''x''
     [(env_ok 1 ''t1'', ''a''), (env_ok 2 ''t2'', ''b''),
      (env_ok 3 ''t3'', ''c''), (env_ok 4 ''t4'', ''d'')] =
   Returned
     \<lparr>BaseLogName = ''x'', MaxLogFileCount = 0, MaxLogMessageCount = 1,
        MaxLogDuration = 3600, logFileCount = 0, logMessageCount = 4,
        logDuration = 4, logStamp = 4, log = Some 3,
        writer = Some \<lparr>wr = Some 3, buf = [], err = None\<rparr>\<rparr>
     \<lparr>disk = [(''x t0'', ''a\<newline>b\<newline>''), (''x t2'', ''c\<newline>''), (''x t3'', ''d\<newline>''), (''x t4'', [])],
        handles = [(''x t0'', False), (''x t2'', False), (''x t3'', False), (''x t4'', True)],
        create_calls = [''x t0'', ''x t2'', ''x t3'', ''x t4'']\<rparr> \<and>
   (\<forall>e sl w. logMessageCount (logger_of (newFile e sl w)) = logMessageCount sl \<and>
             logDuration (logger_of (newFile e sl w)) = logDuration sl)"
proof -
  have "logMessageCount (logger_of (newFile e sl w)) = logMessageCount sl \<and>
        logDuration (logger_of (newFile e sl w)) = logDuration sl" for e sl w
  proof -
    obtain f q where "logger_of (newFile e sl w) = sl\<lparr>log := f, writer := q\<rparr>"
      using newFile_logger by blast
    then show ?thesis by simp
  qed
  then show ?thesis by (simp add: run_defs)
qed

text \<open>
  C2. For a logger that has a writer, \<open>LogMessage\<close> enters the rollover (seen as one more
  call of \<open>os.Create\<close>) exactly when, after the write, the message counter is strictly
  above \<open>MaxLogMessageCount\<close> or the duration is strictly above \<open>MaxLogDuration\<close>; the
  counter compared is the old one plus one and the duration the old one plus the time since
  the last stamp. When neither value is above its limit, equality included, no file is
  created.
\<close>

theorem LogMessage_rollover_iff:
  assumes "writer sl = Some b"
  shows "(create_calls (world_of (LogMessage e message sl w)) \<noteq> create_calls w) =
           (MaxLogMessageCount (logger_of (LogMessage e message sl w))
              < logMessageCount (logger_of (LogMessage e message sl w)) \<or>
            sint (MaxLogDuration (logger_of (LogMessage e message sl w)))
              < sint (logDuration (logger_of (LogMessage e message sl w)))) \<and>
         create_calls (world_of (LogMessage e message sl w)) =
           (if MaxLogMessageCount sl < logMessageCount sl + 1 \<or>
               sint (MaxLogDuration sl) < sint (logDuration sl + (now e - logStamp sl))
            then create_calls w @ [LogFileHandle (dts e) (BaseLogName sl)]
            else create_calls w) \<and>
         logMessageCount (logger_of (LogMessage e message sl w)) = logMessageCount sl + 1 \<and>
         logDuration (logger_of (LogMessage e message sl w)) =
           logDuration sl + (now e - logStamp sl) \<and>
         (logMessageCount (logger_of (LogMessage e message sl w))
              \<le> MaxLogMessageCount (logger_of (LogMessage e message sl w)) \<and>
          sint (logDuration (logger_of (LogMessage e message sl w)))
              \<le> sint (MaxLogDuration (logger_of (LogMessage e message sl w))) \<longrightarrow>
          create_calls (world_of (LogMessage e message sl w)) = create_calls w)"
proof -
  obtain f q where lg: "logger_of (LogMessage e message sl w) =
           sl\<lparr>logMessageCount := logMessageCount sl + 1,
              logDuration := logDuration sl + (now e - logStamp sl),
              logStamp := now e, log := f, writer := q\<rparr>"
    using LogMessage_logger [OF assms] by blast
  show ?thesis
    unfolding lg LogMessage_create_calls [OF assms] by (auto simp: not_less)
qed

text \<open>
  The theorem at a logger with limits 1 and 60 whose counter is 0 and whose duration is
  0: a message 60 seconds after the stamp brings the counter to 1 and the duration to 60,
  both equal to their limits, and no file is created.
\<close>

theorem LogMessage_rollover_iff_witness:
  "writer (zeroLogger\<lparr>BaseLogName := ''x'', MaxLogMessageCount := 1, MaxLogDuration := 60,
             writer := Some (NewWriter None)\<rparr>) = Some (NewWriter None) \<and>
   logMessageCount (logger_of (LogMessage (env_ok 60 ''t1'') ''a''
       (zeroLogger\<lparr>BaseLogName := ''x'', MaxLogMessageCount := 1, MaxLogDuration := 60,
             writer := Some (NewWriter None)\<rparr>) emptyWorld)) = 1 \<and>
   logDuration (logger_of (LogMessage (env_ok 60 ''t1'') ''a''
       (zeroLogger\<lparr>BaseLogName := ''x'', MaxLogMessageCount := 1, MaxLogDuration := 60,
             writer := Some (NewWriter None)\<rparr>) emptyWorld)) = 60 \<and>
   create_calls (world_of (LogMessage (env_ok 60 ''t1'') ''a''
       (zeroLogger\<lparr>BaseLogName := ''x'', MaxLogMessageCount := 1, MaxLogDuration := 60,
             writer := Some (NewWriter None)\<rparr>) emptyWorld)) = []"
  using LogMessage_rollover_iff
    [of "zeroLogger\<lparr>BaseLogName := ''x'', MaxLogMessageCount := 1, MaxLogDuration := 60,
             writer := Some (NewWriter None)\<rparr>"
        "NewWriter None" "env_ok 60 ''t1''" "''a''" emptyWorld]
  by (simp add: zeroLogger_def emptyWorld_def env_ok_def)

subsection \<open>Retention\<close>

text \<open>
  C3. The claim: after every successful rollover the files of the base name are pruned
  down to \<open>MaxLogFileCount\<close>. The code has no call that deletes a file: with
  \<open>MaxLogFileCount = 1\<close> and a rollover after each of two messages, three files whose
  names begin with the base name are on disk.
\<close>

theorem no_prune_session:
  "length (filter (\<lambda>f. prefix ''x'' (fst f))
      (disk (world_of (session (configured 1 0 3600) (env_ok 0 ''t0'') ''x''
         [(env_ok 1 ''t1'', ''a''), (env_ok 2 ''t2'', ''b'')])))) = 3 \<and>
   MaxLogFileCount (logger_of (session (configured 1 0 3600) (env_ok 0 ''t0'') ''x''
         [(env_ok 1 ''t1'', ''a''), (env_ok 2 ''t2'', ''b'')])) = 1 \<and>
   disk (world_of (session (configured 1 0 3600) (env_ok 0 ''t0'') ''x''
         [(env_ok 1 ''t1'', ''a''), (env_ok 2 ''t2'', ''b'')])) =
     [(''x t0'', ''a\<newline>''), (''x t1'', ''b\<newline>''), (''x t2'', [])]"
  by (simp add: run_defs)

subsection \<open>Round trip\<close>




subsection \<open>Starting the log\<close>

text \<open>
  C5. The claim: after a successful \<open>StartLog\<close> all counters are reset, the message
  counter and the duration are 0 and the stamp is the current time. The code assigns
  \<open>logFileCount\<close>, \<open>logDuration\<close> and \<open>logStamp\<close> but not \<open>logMessageCount\<close>: a logger
  that has taken one message and is started again keeps the counter 1 (the duration is 0
  and the stamp is the time of the call). In general \<open>StartLog\<close> leaves
  \<open>logMessageCount\<close> as it was.
\<close>

theorem StartLog_keeps_logMessageCount:
  "StartLog (env_ok 2 ''t2'') ''x''
     (logger_of (session (configured 0 5 3600) (env_ok 0 ''t0'') ''x'' [(env_ok 1 ''t1'', ''a'')]))
     (world_of (session (configured 0 5 3600) (env_ok 0 ''t0'') ''x'' [(env_ok 1 ''t1'', ''a'')])) =
   (None,
    \<lparr>BaseLogName = ''x'', MaxLogFileCount = 0, MaxLogMessageCount = 5,
       MaxLogDuration = 3600, logFileCount = 0, logMessageCount = 1,
       logDuration = 0, logStamp = 2, log = Some 1,
       writer = Some \<lparr>wr = Some 1, buf = [], err = None\<rparr>\<rparr>,
    \<lparr>disk = [(''x t0'', []), (''x t2'', [])],
       handles = [(''x t0'', True), (''x t2'', True)],
       create_calls = [''x t0'', ''x t2'']\<rparr>) \<and>
   (\<forall>e n sl w. logMessageCount (fst (snd (StartLog e n sl w))) = logMessageCount sl)"
proof -
  have "logMessageCount (fst (snd (StartLog e n sl w))) = logMessageCount sl" for e n sl w
    by (simp add: StartLog_def os_Create_def Let_def split: option.splits)
  then show ?thesis by (simp add: run_defs)
qed

text \<open>
  C9. When \<open>os.Create\<close> fails, \<open>StartLog\<close> returns that error and the logger it was
  called on is returned as it was, field by field.
\<close>

theorem StartLog_failure_atomic:
  assumes "create_outcome e = Some x"
  shows "fst (StartLog e logBaseName sl w) = Some x \<and>
         fst (snd (StartLog e logBaseName sl w)) = sl"
  using assms by (simp add: StartLog_def os_Create_def Let_def)

text \<open>The theorem at a logger in use and a full disk (error 28).\<close>

theorem StartLog_failure_atomic_witness:
  "create_outcome \<lparr>now = 9, dts = ''t9'', create_outcome = Some (PathError 28)\<rparr> =
     Some (PathError 28) \<and>
   fst (StartLog \<lparr>now = 9, dts = ''t9'', create_outcome = Some (PathError 28)\<rparr> ''y''
     \<lparr>BaseLogName = ''x'', MaxLogFileCount = 2, MaxLogMessageCount = 5,
        MaxLogDuration = 3600, logFileCount = 0, logMessageCount = 1,
        logDuration = 1, logStamp = 1, log = Some 0,
        writer = Some \<lparr>wr = Some 0, buf = ''a\<newline>'', err = None\<rparr>\<rparr>
     \<lparr>disk = [(''x t0'', [])], handles = [(''x t0'', True)], create_calls = [''x t0'']\<rparr>) =
     Some (PathError 28) \<and>
   fst (snd (StartLog \<lparr>now = 9, dts = ''t9'', create_outcome = Some (PathError 28)\<rparr> ''y''
     \<lparr>BaseLogName = ''x'', MaxLogFileCount = 2, MaxLogMessageCount = 5,
        MaxLogDuration = 3600, logFileCount = 0, logMessageCount = 1,
        logDuration = 1, logStamp = 1, log = Some 0,
        writer = Some \<lparr>wr = Some 0, buf = ''a\<newline>'', err = None\<rparr>\<rparr>
     \<lparr>disk = [(''x t0'', [])], handles = [(''x t0'', True)], create_calls = [''x t0'']\<rparr>)) =
     \<lparr>BaseLogName = ''x'', MaxLogFileCount = 2, MaxLogMessageCount = 5,
        MaxLogDuration = 3600, logFileCount = 0, logMessageCount = 1,
        logDuration = 1, logStamp = 1, log = Some 0,
        writer = Some \<lparr>wr = Some 0, buf = ''a\<newline>'', err = None\<rparr>\<rparr>"
  using StartLog_failure_atomic
    [of "\<lparr>now = 9, dts = ''t9'', create_outcome = Some (PathError 28)\<rparr>" "PathError 28" "''y''"
        "\<lparr>BaseLogName = ''x'', MaxLogFileCount = 2, MaxLogMessageCount = 5,
          MaxLogDuration = 3600, logFileCount = 0, logMessageCount = 1,
          logDuration = 1, logStamp = 1, log = Some 0,
          writer = Some \<lparr>wr = Some 0, buf = ''a\<newline>'', err = None\<rparr>\<rparr>"
        "\<lparr>disk = [(''x t0'', [])], handles = [(''x t0'', True)], create_calls = [''x t0'']\<rparr>"]
  by simp

subsection \<open>A rollover that cannot create its file\<close>

text \<open>
  C6. The claim: when the file cannot be created during a rollover the logger is left
  without an active file, an alert is raised for an operator, and the append does not
  panic. The code, at a rollover on a full disk: the append returns and \<open>log\<close> is the nil
  pointer, but \<open>handleCreateError\<close> is the identity on every logger and world, so the
  failure leaves no trace beyond the failed call itself.
\<close>

theorem create_failure_no_alert_session:
  "session (configured 0 0 3600) (env_ok 0 ''t0'') ''x''
     [(\<lparr>now = 1, dts = ''t1'', create_outcome = Some (PathError 28)\<rparr>, ''a'')] =
   Returned
     \<lparr>BaseLogName = ''x'', MaxLogFileCount = 0, MaxLogMessageCount = 0,
        MaxLogDuration = 3600, logFileCount = 0, logMessageCount = 1,
        logDuration = 1, logStamp = 1, log = None,
        writer = Some \<lparr>wr = None, buf = [], err = None\<rparr>\<rparr>
     \<lparr>disk = [(''x t0'', ''a\<newline>'')], handles = [(''x t0'', False)],
        create_calls = [''x t0'', ''x t1'']\<rparr> \<and>
   (\<forall>sl w. handleCreateError sl w = (sl, w))"
  by (simp add: run_defs)

subsection \<open>File names\<close>

text \<open>
  C7. For every base name the generated file name is the base name, one space, and the
  date string; in particular the base name is a prefix of it.
\<close>

theorem LogFileHandle_format:
  "LogFileHandle d logBaseName = logBaseName @ '' '' @ d \<and>
   prefix logBaseName (LogFileHandle d logBaseName) \<and>
   length '' '' = 1"
  by (simp add: LogFileHandle_def)

subsection \<open>Closing\<close>

text \<open>
  C8, as amended. The package has no \<^verbatim>\<open>close()\<close>; its exported operations are
  \<open>StartLog\<close> and \<open>LogMessage\<close>. From a logger in working order neither of them, whatever
  its arguments and whether or not a file can be created, has the effect the specification
  gives to \<^verbatim>\<open>close()\<close>: the pending bytes and nothing else written to the active file
  and no open file left in the logger.
\<close>

theorem exported_calls_never_close:
  assumes "healthy sl w"
  shows "\<not> spec_close_effect sl w (exec c sl w)"
  using assms by (rule no_call_closes)

text \<open>
  The theorem at a logger just started and an append whose rollover cannot create its
  file: the old file is closed and \<open>log\<close> is nil, but the new message went to disk with
  the flush.
\<close>

theorem exported_calls_never_close_witness:
  "healthy
     \<lparr>BaseLogName = ''x'', MaxLogFileCount = 0, MaxLogMessageCount = 0,
        MaxLogDuration = 3600, logFileCount = 0, logMessageCount = 0,
        logDuration = 0, logStamp = 0, log = Some 0,
        writer = Some \<lparr>wr = Some 0, buf = [], err = None\<rparr>\<rparr>
     \<lparr>disk = [(''x t0'', [])], handles = [(''x t0'', True)], create_calls = [''x t0'']\<rparr> \<and>
   \<not> spec_close_effect
     \<lparr>BaseLogName = ''x'', MaxLogFileCount = 0, MaxLogMessageCount = 0,
        MaxLogDuration = 3600, logFileCount = 0, logMessageCount = 0,
        logDuration = 0, logStamp = 0, log = Some 0,
        writer = Some \<lparr>wr = Some 0, buf = [], err = None\<rparr>\<rparr>
     \<lparr>disk = [(''x t0'', [])], handles = [(''x t0'', True)], create_calls = [''x t0'']\<rparr>
     (exec (Call_LogMessage \<lparr>now = 1, dts = ''t1'', create_outcome = Some (PathError 28)\<rparr> ''a'')
        \<lparr>BaseLogName = ''x'', MaxLogFileCount = 0, MaxLogMessageCount = 0,
           MaxLogDuration = 3600, logFileCount = 0, logMessageCount = 0,
           logDuration = 0, logStamp = 0, log = Some 0,
           writer = Some \<lparr>wr = Some 0, buf = [], err = None\<rparr>\<rparr>
        \<lparr>disk = [(''x t0'', [])], handles = [(''x t0'', True)], create_calls = [''x t0'']\<rparr>)"
  using exported_calls_never_close
    [of "\<lparr>BaseLogName = ''x'', MaxLogFileCount = 0, MaxLogMessageCount = 0,
          MaxLogDuration = 3600, logFileCount = 0, logMessageCount = 0,
          logDuration = 0, logStamp = 0, log = Some 0,
          writer = Some \<lparr>wr = Some 0, buf = [], err = None\<rparr>\<rparr>"
        "\<lparr>disk = [(''x t0'', [])], handles = [(''x t0'', True)], create_calls = [''x t0'']\<rparr>"
        "Call_LogMessage \<lparr>now = 1, dts = ''t1'', create_outcome = Some (PathError 28)\<rparr> ''a''"]
  by (simp add: healthy_def)

text \<open>
  The claim as it was stated fails at a started logger holding one line in its buffer:
  no call of an exported operation closes it.
\<close>

theorem no_close_counterexample:
  "\<not> (\<exists>c. spec_close_effect
          \<lparr>BaseLogName = ''x'', MaxLogFileCount = 0, MaxLogMessageCount = 5,
             MaxLogDuration = 3600, logFileCount = 0, logMessageCount = 1,
             logDuration = 1, logStamp = 1, log = Some 0,
             writer = Some \<lparr>wr = Some 0, buf = ''a\<newline>'', err = None\<rparr>\<rparr>
          \<lparr>disk = [(''x t0'', [])], handles = [(''x t0'', True)], create_calls = [''x t0'']\<rparr>
          (exec c
             \<lparr>BaseLogName = ''x'', MaxLogFileCount = 0, MaxLogMessageCount = 5,
                MaxLogDuration = 3600, logFileCount = 0, logMessageCount = 1,
                logDuration = 1, logStamp = 1, log = Some 0,
                writer = Some \<lparr>wr = Some 0, buf = ''a\<newline>'', err = None\<rparr>\<rparr>
             \<lparr>disk = [(''x t0'', [])], handles = [(''x t0'', True)],
                create_calls = [''x t0'']\<rparr>))"
proof -
  have "healthy
     \<lparr>BaseLogName = ''x'', MaxLogFileCount = 0, MaxLogMessageCount = 5,
        MaxLogDuration = 3600, logFileCount = 0, logMessageCount = 1,
        logDuration = 1, logStamp = 1, log = Some 0,
        writer = Some \<lparr>wr = Some 0, buf = ''a\<newline>'', err = None\<rparr>\<rparr>
     \<lparr>disk = [(''x t0'', [])], handles = [(''x t0'', True)], create_calls = [''x t0'']\<rparr>"
    by (simp add: healthy_def)
  then show ?thesis using no_call_closes by blast
qed

subsection \<open>The configuration is not touched\<close>

text \<open>
  C10. Whatever the message and the logger, and whether the call returns, rolls over or
  panics, \<open>LogMessage\<close> leaves \<open>BaseLogName\<close>, \<open>MaxLogFileCount\<close>, \<open>MaxLogMessageCount\<close>
  and \<open>MaxLogDuration\<close> as they were.
\<close>

theorem LogMessage_keeps_configuration:
  "BaseLogName (logger_of (LogMessage e message sl w)) = BaseLogName sl \<and>
   MaxLogFileCount (logger_of (LogMessage e message sl w)) = MaxLogFileCount sl \<and>
   MaxLogMessageCount (logger_of (LogMessage e message sl w)) = MaxLogMessageCount sl \<and>
   MaxLogDuration (logger_of (LogMessage e message sl w)) = MaxLogDuration sl"
proof (cases "writer sl")
  case None
  then show ?thesis by (simp add: LogMessage_def)
next
  case (Some b)
  obtain f q where lg: "logger_of (LogMessage e message sl w) =
           sl\<lparr>logMessageCount := logMessageCount sl + 1,
              logDuration := logDuration sl + (now e - logStamp sl),
              logStamp := now e, log := f, writer := q\<rparr>"
    using LogMessage_logger [OF Some] by blast
  show ?thesis unfolding lg by simp
qed

end
